theory Spec2Isabelle
  imports Main
begin

section \<open>The flat (OpenAI-style) data model\<close>

text \<open>
  The interfaces of \<^verbatim>\<open>openaiFormatConverter.ts\<close>. An optional field
  (\<^verbatim>\<open>tool_calls?\<close>, \<^verbatim>\<open>tool_call_id?\<close>) and a nullable one (\<^verbatim>\<open>content: string | null\<close>)
  are options: \<open>None\<close> stands for \<^verbatim>\<open>undefined\<close>, \<^verbatim>\<open>null\<close> and a missing key alike,
  which the code never tells apart (it only tests truthiness). The field \<^verbatim>\<open>id\<close> is
  \<open>tc_id\<close>, \<^verbatim>\<open>type\<close> is \<open>tc_type\<close> and \<^verbatim>\<open>function\<close> is \<open>tc_function\<close>.
\<close>

datatype Role = System | User | Assistant | Tool

record OpenAIFunction =
  name :: string
  arguments :: string

record OpenAIToolCall =
  tc_id :: string
  tc_type :: string
  tc_function :: OpenAIFunction

record OpenAIMessage =
  role :: Role
  content :: "string option"
  tool_calls :: "OpenAIToolCall list option"
  tool_call_id :: "string option"

text \<open>
  JavaScript truthiness of a \<^verbatim>\<open>string | null | undefined\<close>: \<^verbatim>\<open>null\<close>, \<^verbatim>\<open>undefined\<close>
  and the empty string are falsy, every other string is truthy. An array is always
  truthy, also the empty one.
\<close>

fun truthy :: "string option \<Rightarrow> bool" where
  "truthy None = False"
| "truthy (Some s) = (s \<noteq> [])"

text \<open>\<^verbatim>\<open>Array.prototype.join\<close> on strings.\<close>

fun join :: "string \<Rightarrow> string list \<Rightarrow> string" where
  "join sep [] = []"
| "join sep [x] = x"
| "join sep (x # y # ys) = x @ sep @ join sep (y # ys)"

definition newline :: string where
  "newline = [CHR 0x0A]"

section \<open>History sanitizer: orphaned tool calls\<close>

text \<open>
  First pass of \<^verbatim>\<open>cleanOrphanedToolCalls\<close>: the set of the ids of all tool calls of
  assistant messages whose \<^verbatim>\<open>tool_calls\<close> is present.
\<close>

fun collectToolCallIds :: "OpenAIMessage list \<Rightarrow> string set \<Rightarrow> string set" where
  "collectToolCallIds [] toolCallIds = toolCallIds"
| "collectToolCallIds (message # rest) toolCallIds =
     collectToolCallIds rest
       (if role message = Assistant then
          (case tool_calls message of
             Some tcs \<Rightarrow> fold (\<lambda>toolCall ids. insert (tc_id toolCall) ids) tcs toolCallIds
           | None \<Rightarrow> toolCallIds)
        else toolCallIds)"

text \<open>
  \<^verbatim>\<open>messages.some(m => m.role === 'tool' && m.tool_call_id === toolCall.id)\<close>: the whole
  input list is searched, and \<^verbatim>\<open>===\<close> against a string fails on \<^verbatim>\<open>undefined\<close>.
\<close>

definition hasResponse :: "OpenAIMessage list \<Rightarrow> OpenAIToolCall \<Rightarrow> bool" where
  "hasResponse messages toolCall =
     list_ex (\<lambda>m. role m = Tool \<and> tool_call_id m = Some (tc_id toolCall)) messages"

text \<open>
  Second pass: the loop over the messages, \<open>cleanedMessages\<close> being the accumulator
  that \<^verbatim>\<open>push\<close> extends at its end.
\<close>

fun cleanLoop ::
  "OpenAIMessage list \<Rightarrow> string set \<Rightarrow> OpenAIMessage list \<Rightarrow> OpenAIMessage list
     \<Rightarrow> OpenAIMessage list" where
  "cleanLoop messages toolCallIds [] cleanedMessages = cleanedMessages"
| "cleanLoop messages toolCallIds (message # rest) cleanedMessages =
     cleanLoop messages toolCallIds rest
       (if role message = Tool then
          (case tool_call_id message of
             Some i \<Rightarrow>
               if truthy (Some i) \<and> i \<in> toolCallIds then cleanedMessages @ [message]
               else cleanedMessages
           | None \<Rightarrow> cleanedMessages)
        else
          (case (role message = Assistant, tool_calls message) of
             (True, Some tcs) \<Rightarrow>
               (let validToolCalls = filter (hasResponse messages) tcs
                in cleanedMessages @
                     [message\<lparr>tool_calls :=
                        (if length validToolCalls > 0 then Some validToolCalls else None)\<rparr>])
           | _ \<Rightarrow> cleanedMessages @ [message]))"

definition cleanOrphanedToolCalls :: "OpenAIMessage list \<Rightarrow> OpenAIMessage list" where
  "cleanOrphanedToolCalls messages =
     cleanLoop messages (collectToolCallIds messages {}) messages []"

section \<open>History sanitizer: consecutive assistant messages\<close>

text \<open>
  \<^verbatim>\<open>[a, b].filter(Boolean).join('\n')\<close>: the truthy ones of the two contents, joined.
\<close>

definition mergedContent :: "string option \<Rightarrow> string option \<Rightarrow> string" where
  "mergedContent a b = join newline (map the (filter truthy [a, b]))"

text \<open>\<^verbatim>\<open>x.tool_calls || []\<close>\<close>

definition toolCallsOrEmpty :: "OpenAIMessage \<Rightarrow> OpenAIToolCall list" where
  "toolCallsOrEmpty m = (case tool_calls m of Some tcs \<Rightarrow> tcs | None \<Rightarrow> [])"

text \<open>
  The object literal that merges \<open>message\<close> into the pending assistant message: the
  spread keeps the other fields of the pending one (its \<^verbatim>\<open>tool_call_id\<close>).
\<close>

definition mergeInto :: "OpenAIMessage \<Rightarrow> OpenAIMessage \<Rightarrow> OpenAIMessage" where
  "mergeInto currentAssistantMessage message =
     currentAssistantMessage
       \<lparr>role := Assistant,
        content :=
          (let c = mergedContent (content currentAssistantMessage) (content message)
           in if c \<noteq> [] then Some c else None),
        tool_calls :=
          Some (toolCallsOrEmpty currentAssistantMessage @ toolCallsOrEmpty message)\<rparr>"

text \<open>
  The loop of \<^verbatim>\<open>mergeConsecutiveAssistantMessages\<close>, with its two variables
  \<open>mergedMessages\<close> and \<open>currentAssistantMessage\<close> (\<open>None\<close> is \<^verbatim>\<open>null\<close>); the empty
  list is the code after the loop.
\<close>

fun mergeLoop ::
  "OpenAIMessage list \<Rightarrow> OpenAIMessage list \<Rightarrow> OpenAIMessage option \<Rightarrow> OpenAIMessage list"
  where
  "mergeLoop [] mergedMessages currentAssistantMessage =
     (case currentAssistantMessage of
        Some c \<Rightarrow> mergedMessages @ [c]
      | None \<Rightarrow> mergedMessages)"
| "mergeLoop (message # rest) mergedMessages currentAssistantMessage =
     (if role message = Assistant then
        (case currentAssistantMessage of
           Some c \<Rightarrow> mergeLoop rest mergedMessages (Some (mergeInto c message))
         | None \<Rightarrow> mergeLoop rest mergedMessages (Some message))
      else
        (case currentAssistantMessage of
           Some c \<Rightarrow> mergeLoop rest (mergedMessages @ [c] @ [message]) None
         | None \<Rightarrow> mergeLoop rest (mergedMessages @ [message]) None))"

definition mergeConsecutiveAssistantMessages :: "OpenAIMessage list \<Rightarrow> OpenAIMessage list" where
  "mergeConsecutiveAssistantMessages messages = mergeLoop messages [] None"

section \<open>The turn-structured (Gemini-style) data model\<close>

text \<open>
  The types of \<^verbatim>\<open>@google/genai\<close> and of \<^verbatim>\<open>openai\<close> are imported by the file and not
  declared in it; the records below hold the fields the converter reads or writes. A
  JSON value (\<^verbatim>\<open>args\<close>, \<^verbatim>\<open>response\<close>) is of the type parameter \<open>'j\<close>, and
  \<^verbatim>\<open>JSON.parse\<close>, \<^verbatim>\<open>JSON.stringify\<close> and the object literal \<^verbatim>\<open>{}\<close> are parameters of
  the functions that use them: \<open>JSON_parse s = None\<close> when \<^verbatim>\<open>JSON.parse(s)\<close> throws.
  A \<^verbatim>\<open>Part\<close> is an object with optional keys, \<open>Some\<close> when the key is there
  (\<^verbatim>\<open>'text' in part\<close>); its \<^verbatim>\<open>text\<close> is \<open>part_text\<close>. The \<^verbatim>\<open>role\<close> and \<^verbatim>\<open>parts\<close> of a
  \<^verbatim>\<open>Content\<close> are \<open>turnRole\<close> and \<open>parts\<close>, the \<^verbatim>\<open>content\<close> of a candidate is
  \<open>candidateContent\<close>, the \<^verbatim>\<open>name\<close> and \<^verbatim>\<open>args\<close> of a function call \<open>fc_name\<close> and
  \<open>fc_args\<close>, those of a function response \<open>fr_name\<close> and \<open>fr_response\<close>.
\<close>

datatype FinishReason = STOP | MAX_TOKENS | SAFETY | OTHER

record 'j FunctionCall =
  fc_name :: string
  fc_args :: "'j option"

record 'j FunctionResponse =
  fr_name :: "string option"
  fr_response :: "'j option"

record 'j Part =
  part_text :: "string option"
  functionCall :: "'j FunctionCall option"
  functionResponse :: "'j FunctionResponse option"

record 'j Content =
  turnRole :: string
  parts :: "'j Part list option"

record 'j Candidate =
  candidateContent :: "'j Content"
  finishReason :: "FinishReason option"

record UsageMetadata =
  promptTokenCount :: int
  candidatesTokenCount :: int
  totalTokenCount :: int

record 'j GenerateContentResponse =
  candidates :: "'j Candidate list"
  usageMetadata :: "UsageMetadata option"

text \<open>
  \<^verbatim>\<open>request.contents\<close> is one item or an array of items; an item that is not an object
  with the keys \<^verbatim>\<open>role\<close> and \<^verbatim>\<open>parts\<close> (a string, a bare part) is \<open>NotContent\<close>.
\<close>

datatype 'j ContentUnion = ContentObject "'j Content" | NotContent

datatype 'j ContentListUnion = ContentArray "'j ContentUnion list" | SingleContent "'j ContentUnion"

typedecl number

record GenerateContentConfig =
  temperature :: "number option"
  topP :: "number option"
  maxOutputTokens :: "number option"

record 'j GenerateContentParameters =
  contents :: "'j ContentListUnion"
  config :: "GenerateContentConfig option"

text \<open>
  The flat request; its \<^verbatim>\<open>temperature\<close> is \<open>req_temperature\<close>, and \<^verbatim>\<open>tools\<close>, which the
  converter never sets, is left out.
\<close>

record OpenAIRequestFormat =
  model :: string
  messages :: "OpenAIMessage list"
  req_temperature :: "number option"
  max_tokens :: "number option"
  top_p :: "number option"

text \<open>The flat response and the flat chunk, as far as the converter reads them.\<close>

record OpenAIUsage =
  prompt_tokens :: int
  completion_tokens :: int
  total_tokens :: int

record OpenAIChoice =
  message :: OpenAIMessage
  finish_reason :: string

record ChatCompletion =
  choices :: "OpenAIChoice list"
  usage :: "OpenAIUsage option"

record ChunkFunction =
  cf_name :: "string option"
  cf_arguments :: "string option"

record ChunkToolCall =
  ctc_type :: "string option"
  ctc_function :: "ChunkFunction option"

record ChunkDelta =
  delta_content :: "string option"
  delta_tool_calls :: "ChunkToolCall list option"

record ChunkChoice =
  delta :: ChunkDelta
  chunk_finish_reason :: "string option"

record ChatCompletionChunk =
  chunk_choices :: "ChunkChoice list"

datatype error = Error string | SyntaxError

section \<open>Inbound translation\<close>

definition mapFinishReason :: "string \<Rightarrow> FinishReason" where
  "mapFinishReason openAIReason =
     (if openAIReason = ''stop'' then STOP
      else if openAIReason = ''length'' then MAX_TOKENS
      else if openAIReason = ''tool_calls'' then STOP
      else if openAIReason = ''content_filter'' then SAFETY
      else OTHER)"

definition textPart :: "string \<Rightarrow> 'j Part" where
  "textPart s = \<lparr>part_text = Some s, functionCall = None, functionResponse = None\<rparr>"

definition functionCallPart :: "string \<Rightarrow> 'j \<Rightarrow> 'j Part" where
  "functionCallPart n a =
     \<lparr>part_text = None, functionCall = Some \<lparr>fc_name = n, fc_args = Some a\<rparr>,
      functionResponse = None\<rparr>"

text \<open>\<^verbatim>\<open>toolCall.function.arguments || '{}'\<close>\<close>

definition argumentsOrEmptyObject :: "OpenAIToolCall \<Rightarrow> string" where
  "argumentsOrEmptyObject toolCall =
     (if arguments (tc_function toolCall) \<noteq> [] then arguments (tc_function toolCall) else ''{}'')"

text \<open>
  The loop over \<^verbatim>\<open>choice.message.tool_calls\<close>; \<open>partsAcc\<close> is the array \<^verbatim>\<open>parts\<close>. A
  \<^verbatim>\<open>JSON.parse\<close> that throws ends the whole translation.
\<close>

fun toolCallParts ::
  "(string \<Rightarrow> 'j option) \<Rightarrow> OpenAIToolCall list \<Rightarrow> 'j Part list \<Rightarrow> error + 'j Part list" where
  "toolCallParts JSON_parse [] partsAcc = Inr partsAcc"
| "toolCallParts JSON_parse (toolCall # rest) partsAcc =
     (if tc_type toolCall = ''function'' then
        (case JSON_parse (argumentsOrEmptyObject toolCall) of
           None \<Rightarrow> Inl SyntaxError
         | Some args \<Rightarrow>
             toolCallParts JSON_parse rest
               (partsAcc @ [functionCallPart (name (tc_function toolCall)) args]))
      else toolCallParts JSON_parse rest partsAcc)"

definition convertToGeminiFormat ::
  "(string \<Rightarrow> 'j option) \<Rightarrow> ChatCompletion \<Rightarrow> error + 'j GenerateContentResponse" where
  "convertToGeminiFormat JSON_parse completion =
     (case choices completion of
        [] \<Rightarrow> Inl (Error ''No choices in OpenAI response'')
      | choice # _ \<Rightarrow>
          (let partsText =
                 (case content (message choice) of
                    Some c \<Rightarrow> if truthy (Some c) then [textPart c] else []
                  | None \<Rightarrow> [])
           in case (case tool_calls (message choice) of
                      Some tcs \<Rightarrow> toolCallParts JSON_parse tcs partsText
                    | None \<Rightarrow> Inr partsText) of
                Inl e \<Rightarrow> Inl e
              | Inr partsAll \<Rightarrow>
                  Inr \<lparr>candidates =
                         [\<lparr>candidateContent = \<lparr>turnRole = ''model'', parts = Some partsAll\<rparr>,
                           finishReason = Some (mapFinishReason (finish_reason choice))\<rparr>],
                       usageMetadata =
                         (case usage completion of
                            Some u \<Rightarrow>
                              Some \<lparr>promptTokenCount = prompt_tokens u,
                                    candidatesTokenCount = completion_tokens u,
                                    totalTokenCount = total_tokens u\<rparr>
                          | None \<Rightarrow> None)\<rparr>))"

text \<open>
  The loop over \<^verbatim>\<open>choice.delta.tool_calls\<close>: \<^verbatim>\<open>function.name || ''\<close>, and the arguments
  parsed when truthy, the literal \<^verbatim>\<open>{}\<close> otherwise.
\<close>

fun deltaToolCallParts ::
  "(string \<Rightarrow> 'j option) \<Rightarrow> 'j \<Rightarrow> ChunkToolCall list \<Rightarrow> 'j Part list \<Rightarrow> error + 'j Part list"
  where
  "deltaToolCallParts JSON_parse emptyObject [] partsAcc = Inr partsAcc"
| "deltaToolCallParts JSON_parse emptyObject (toolCall # rest) partsAcc =
     (case (ctc_type toolCall = Some ''function'', ctc_function toolCall) of
        (True, Some f) \<Rightarrow>
          (let n = (case cf_name f of Some s \<Rightarrow> if truthy (Some s) then s else [] | None \<Rightarrow> [])
           in case (case cf_arguments f of
                      Some s \<Rightarrow> if truthy (Some s) then JSON_parse s else Some emptyObject
                    | None \<Rightarrow> Some emptyObject) of
                None \<Rightarrow> Inl SyntaxError
              | Some args \<Rightarrow>
                  deltaToolCallParts JSON_parse emptyObject rest
                    (partsAcc @ [functionCallPart n args]))
      | _ \<Rightarrow> deltaToolCallParts JSON_parse emptyObject rest partsAcc)"

definition convertStreamChunkToGeminiFormat ::
  "(string \<Rightarrow> 'j option) \<Rightarrow> 'j \<Rightarrow> ChatCompletionChunk \<Rightarrow> error + 'j GenerateContentResponse"
  where
  "convertStreamChunkToGeminiFormat JSON_parse emptyObject chunk =
     (case chunk_choices chunk of
        [] \<Rightarrow> Inr \<lparr>candidates = [], usageMetadata = None\<rparr>
      | choice # _ \<Rightarrow>
          (let partsText =
                 (case delta_content (delta choice) of
                    Some c \<Rightarrow> if truthy (Some c) then [textPart c] else []
                  | None \<Rightarrow> [])
           in case (case delta_tool_calls (delta choice) of
                      Some tcs \<Rightarrow> deltaToolCallParts JSON_parse emptyObject tcs partsText
                    | None \<Rightarrow> Inr partsText) of
                Inl e \<Rightarrow> Inl e
              | Inr partsAll \<Rightarrow>
                  Inr \<lparr>candidates =
                         [\<lparr>candidateContent = \<lparr>turnRole = ''model'', parts = Some partsAll\<rparr>,
                           finishReason =
                             (case chunk_finish_reason choice of
                                Some r \<Rightarrow> if truthy (Some r) then Some (mapFinishReason r) else None
                              | None \<Rightarrow> None)\<rparr>],
                       usageMetadata = None\<rparr>))"

section \<open>Outbound translation\<close>

text \<open>
  The decimal digits that a template literal prints for a non-negative integer
  (\<^verbatim>\<open>`${index}`\<close>).
\<close>

definition digitChar :: "nat \<Rightarrow> char" where
  "digitChar d = ''0123456789'' ! d"

fun showNat :: "nat \<Rightarrow> string" where
  "showNat n = (if n < 10 then [digitChar n] else showNat (n div 10) @ [digitChar (n mod 10)])"

declare showNat.simps [simp del]

text \<open>
  \<^verbatim>\<open>Date.now()\<close> is the parameter \<open>Date_now\<close>: \<open>Date_now n\<close> is what the call number
  \<open>n\<close> (from 0) of one translation returns, in milliseconds; the loop carries the
  number \<open>k\<close> of calls made so far. The callback of \<^verbatim>\<open>functionCalls.map\<close> calls it once
  for each function call, so the call with index \<open>index\<close> of a turn reads
  \<open>Date_now (k + index)\<close>. \<^verbatim>\<open>fc.functionCall.args || {}\<close> is the case on \<open>fc_args\<close>.
\<close>

definition toolCallOf ::
  "(nat \<Rightarrow> nat) \<Rightarrow> nat \<Rightarrow> ('j \<Rightarrow> string) \<Rightarrow> 'j \<Rightarrow> nat \<times> 'j FunctionCall \<Rightarrow> OpenAIToolCall" where
  "toolCallOf Date_now k JSON_stringify emptyObject p =
     (case p of (index, fc) \<Rightarrow>
        \<lparr>tc_id = ''call_'' @ showNat (Date_now (k + index)) @ ''_'' @ showNat index,
         tc_type = ''function'',
         tc_function =
           \<lparr>name = fc_name fc,
            arguments =
              JSON_stringify (case fc_args fc of Some a \<Rightarrow> a | None \<Rightarrow> emptyObject)\<rparr>\<rparr>)"

text \<open>
  The tool message of a function response: \<^verbatim>\<open>response || {}\<close> serialized, and
  \<^verbatim>\<open>`call_${name || 'unknown'}`\<close>.
\<close>

definition toolMessageOf :: "('j \<Rightarrow> string) \<Rightarrow> 'j \<Rightarrow> 'j FunctionResponse \<Rightarrow> OpenAIMessage" where
  "toolMessageOf JSON_stringify emptyObject fr =
     \<lparr>role = Tool,
      content =
        Some (JSON_stringify (case fr_response fr of Some r \<Rightarrow> r | None \<Rightarrow> emptyObject)),
      tool_calls = None,
      tool_call_id =
        Some (''call_'' @
              (case fr_name fr of
                 Some n \<Rightarrow> if truthy (Some n) then n else ''unknown''
               | None \<Rightarrow> ''unknown''))\<rparr>"

text \<open>
  The body of the loop over the turns, on the state \<open>(messages, k)\<close>.
  \<open>List.map_filter part_text\<close> is \<^verbatim>\<open>filter(part => 'text' in part).map(part => part.text)\<close>,
  and so for the function calls and the function responses.
\<close>

definition convertContent ::
  "(nat \<Rightarrow> nat) \<Rightarrow> ('j \<Rightarrow> string) \<Rightarrow> 'j \<Rightarrow> 'j ContentUnion
     \<Rightarrow> OpenAIMessage list \<times> nat \<Rightarrow> OpenAIMessage list \<times> nat" where
  "convertContent Date_now JSON_stringify emptyObject item state =
     (case (item, state) of
        (NotContent, _) \<Rightarrow> state
      | (ContentObject c, (msgs, k)) \<Rightarrow>
          if turnRole c = ''user'' \<or> turnRole c = ''model'' then
            (let r = (if turnRole c = ''model'' then Assistant else User);
                 ps = (case parts c of Some l \<Rightarrow> l | None \<Rightarrow> []);
                 textParts = join newline (List.map_filter part_text ps);
                 msgs1 =
                   (if textParts \<noteq> [] then
                      msgs @
                        [\<lparr>role = r, content = Some textParts, tool_calls = None,
                          tool_call_id = None\<rparr>]
                    else msgs);
                 functionCalls = List.map_filter functionCall ps;
                 functionResponses = List.map_filter functionResponse ps;
                 msgs2 =
                   (if length functionCalls > 0 then
                      msgs1 @
                        [\<lparr>role = Assistant, content = None,
                          tool_calls =
                            Some (map (toolCallOf Date_now k JSON_stringify emptyObject)
                                    (enumerate 0 functionCalls)),
                          tool_call_id = None\<rparr>]
                    else msgs1)
             in (msgs2 @ map (toolMessageOf JSON_stringify emptyObject) functionResponses,
                 k + length functionCalls))
          else state)"

definition convertGeminiParametersToOpenAI ::
  "(nat \<Rightarrow> nat) \<Rightarrow> ('j \<Rightarrow> string) \<Rightarrow> 'j \<Rightarrow> 'j GenerateContentParameters \<Rightarrow> string
     \<Rightarrow> OpenAIRequestFormat" where
  "convertGeminiParametersToOpenAI Date_now JSON_stringify emptyObject request modelName =
     (let items = (case contents request of ContentArray l \<Rightarrow> l | SingleContent c \<Rightarrow> [c]);
          msgs = fst (fold (convertContent Date_now JSON_stringify emptyObject) items ([], 0))
      in \<lparr>model = modelName,
          messages = msgs,
          req_temperature = (case config request of Some c \<Rightarrow> temperature c | None \<Rightarrow> None),
          max_tokens = (case config request of Some c \<Rightarrow> maxOutputTokens c | None \<Rightarrow> None),
          top_p = (case config request of Some c \<Rightarrow> topP c | None \<Rightarrow> None)\<rparr>)"

section \<open>Notions used to state the properties\<close>

text \<open>
  The strings that \<^verbatim>\<open>filter(Boolean)\<close> keeps of the contents of a run of messages,
  and \<^verbatim>\<open>joined || null\<close>.
\<close>

definition contentText :: "string option \<Rightarrow> string list" where
  "contentText c = map the (filter truthy [c])"

definition nonEmptyContents :: "OpenAIMessage list \<Rightarrow> string list" where
  "nonEmptyContents run = concat (map (\<lambda>m. contentText (content m)) run)"

definition joinOrNull :: "string list \<Rightarrow> string option" where
  "joinOrNull cs = (let c = join newline cs in if c \<noteq> [] then Some c else None)"

text \<open>No two neighbours of the list are both assistant messages.\<close>

fun noAdjacentAssistants :: "OpenAIMessage list \<Rightarrow> bool" where
  "noAdjacentAssistants [] = True"
| "noAdjacentAssistants [x] = True"
| "noAdjacentAssistants (x # y # zs) =
     (\<not> (role x = Assistant \<and> role y = Assistant) \<and> noAdjacentAssistants (y # zs))"

text \<open>
  The second pass of \<^verbatim>\<open>cleanOrphanedToolCalls\<close> run over a segment of the list
  \<open>allMessages\<close>, the id set and the search for responses being those of the whole
  list.
\<close>

definition cleanSegment :: "OpenAIMessage list \<Rightarrow> OpenAIMessage list \<Rightarrow> OpenAIMessage list" where
  "cleanSegment allMessages segment =
     cleanLoop allMessages (collectToolCallIds allMessages {}) segment []"

text \<open>
  The reading of claim C5: a tool call is answered when a matching tool message stands
  among the messages \<open>later\<close>, those after the assistant message.
\<close>

definition hasLaterResponse :: "OpenAIMessage list \<Rightarrow> OpenAIToolCall \<Rightarrow> bool" where
  "hasLaterResponse later call =
     list_ex (\<lambda>m. role m = Tool \<and> tool_call_id m = Some (tc_id call)) later"

text \<open>The reading of claim C8: the contents that are not null, empty strings included.\<close>

definition nonNullContents :: "OpenAIMessage list \<Rightarrow> string list" where
  "nonNullContents run = concat (map (\<lambda>m. case content m of Some s \<Rightarrow> [s] | None \<Rightarrow> []) run)"

text \<open>
  Every tool call of type \<^verbatim>\<open>function\<close> has an arguments text (\<^verbatim>\<open>'{}'\<close> for the empty
  one) that \<^verbatim>\<open>JSON.parse\<close> accepts.
\<close>

definition parsesAll :: "(string \<Rightarrow> 'j option) \<Rightarrow> OpenAIToolCall list \<Rightarrow> bool" where
  "parsesAll JSON_parse tcs =
     list_all (\<lambda>tc. tc_type tc \<noteq> ''function'' \<or> JSON_parse (argumentsOrEmptyObject tc) \<noteq> None) tcs"

text \<open>The number a string of decimal digits stands for.\<close>

definition digitValue :: "char \<Rightarrow> nat" where
  "digitValue ch = length (takeWhile (\<lambda>d. d \<noteq> ch) ''0123456789'')"

definition readNat :: "string \<Rightarrow> nat" where
  "readNat s = foldl (\<lambda>v ch. 10 * v + digitValue ch) 0 s"

section \<open>Example inputs\<close>

definition exampleCall :: "string \<Rightarrow> OpenAIToolCall" where
  "exampleCall i =
     \<lparr>tc_id = i, tc_type = ''function'',
      tc_function = \<lparr>name = ''f'', arguments = ''{}''\<rparr>\<rparr>"

definition assistantMsg :: "string option \<Rightarrow> OpenAIToolCall list option \<Rightarrow> OpenAIMessage" where
  "assistantMsg c tcs = \<lparr>role = Assistant, content = c, tool_calls = tcs, tool_call_id = None\<rparr>"

definition toolMsg :: "string \<Rightarrow> OpenAIMessage" where
  "toolMsg i = \<lparr>role = Tool, content = Some ''{}'', tool_calls = None, tool_call_id = Some i\<rparr>"

definition userMsg :: "string \<Rightarrow> OpenAIMessage" where
  "userMsg c = \<lparr>role = User, content = Some c, tool_calls = None, tool_call_id = None\<rparr>"

text \<open>
  A \<^verbatim>\<open>JSON.parse\<close> for the examples, with \<open>unit\<close> for the JSON values: it throws on
  the text \<^verbatim>\<open>{\<close>, as \<^verbatim>\<open>JSON.parse('{')\<close> does (unexpected end of input), and the
  examples give it no other text than that and \<^verbatim>\<open>{}\<close>.
\<close>

definition parseRejectingOpenBrace :: "string \<Rightarrow> unit option" where
  "parseRejectingOpenBrace s = (if s = ''{'' then None else Some ())"

definition exampleChoice :: "string option \<Rightarrow> string \<Rightarrow> string \<Rightarrow> OpenAIChoice" where
  "exampleChoice c args reason =
     \<lparr>message =
        \<lparr>role = Assistant, content = c,
         tool_calls = Some [\<lparr>tc_id = ''call_1'', tc_type = ''function'',
                             tc_function = \<lparr>name = ''f'', arguments = args\<rparr>\<rparr>],
         tool_call_id = None\<rparr>,
      finish_reason = reason\<rparr>"

definition exampleChunkChoice :: "string option \<Rightarrow> string option \<Rightarrow> ChunkChoice" where
  "exampleChunkChoice c reason =
     \<lparr>delta = \<lparr>delta_content = c, delta_tool_calls = None\<rparr>, chunk_finish_reason = reason\<rparr>"

text \<open>A model turn that holds one function call part for each name.\<close>

definition functionCallTurn :: "string list \<Rightarrow> 'j ContentUnion" where
  "functionCallTurn names =
     ContentObject
       \<lparr>turnRole = ''model'',
        parts = Some (map (\<lambda>n. \<lparr>part_text = None,
                                 functionCall = Some \<lparr>fc_name = n, fc_args = None\<rparr>,
                                 functionResponse = None\<rparr>) names)\<rparr>"

section \<open>The merging loop\<close>

lemma mergeLoop_append_acc:
  "mergeLoop ms (a @ b) cur = a @ mergeLoop ms b cur"
  by (induction ms arbitrary: b cur) (auto split: option.splits)

lemma mergeLoop_acc: "mergeLoop ms merged cur = merged @ mergeLoop ms [] cur"
  using mergeLoop_append_acc [of ms merged "[]" cur] by simp

lemma mergeLoop_run:
  "\<forall>m\<in>set run. role m = Assistant \<Longrightarrow> post = [] \<or> role (hd post) \<noteq> Assistant \<Longrightarrow>
   mergeLoop (run @ post) [] (Some c) = foldl mergeInto c run # mergeLoop post [] None"
proof (induction run arbitrary: c)
  case Nil
  show ?case
  proof (cases post)
    case Nil
    then show ?thesis by simp
  next
    case (Cons p ps)
    with Nil.prems have "role p \<noteq> Assistant" by simp
    then show ?thesis
      using Cons mergeLoop_acc [of ps "[c, p]" None] mergeLoop_acc [of ps "[p]" None]
      by simp
  qed
next
  case (Cons m run)
  then show ?case by simp
qed

lemma mergeLoop_prefix:
  "pre \<noteq> [] \<Longrightarrow> role (last pre) \<noteq> Assistant \<Longrightarrow>
   mergeLoop (pre @ xs) [] cur = mergeLoop pre [] cur @ mergeLoop xs [] None"
proof (induction pre arbitrary: cur)
  case Nil
  then show ?case by simp
next
  case (Cons p pre)
  show ?case
  proof (cases "pre = []")
    case True
    with Cons.prems have "role p \<noteq> Assistant" by simp
    then show ?thesis
      using True mergeLoop_acc [of xs "[the cur, p]" None] mergeLoop_acc [of xs "[p]" None]
      by (cases cur) simp_all
  next
    case False
    with Cons.prems have l: "role (last pre) \<noteq> Assistant" by simp
    note ih = Cons.IH [OF False l]
    show ?thesis
    proof (cases "role p = Assistant")
      case True
      then show ?thesis using ih by (cases cur) simp_all
    next
      case False
      then show ?thesis
        using ih [of None]
          mergeLoop_acc [of "pre @ xs" "[the cur, p]" None] mergeLoop_acc [of "pre @ xs" "[p]" None]
          mergeLoop_acc [of "pre" "[the cur, p]" None] mergeLoop_acc [of "pre" "[p]" None]
        by (cases cur) simp_all
    qed
  qed
qed

lemma join_Cons: "join sep (x # xs) = (if xs = [] then x else x @ sep @ join sep xs)"
  by (cases xs) simp_all

lemma join_append:
  "xs \<noteq> [] \<Longrightarrow> ys \<noteq> [] \<Longrightarrow> join sep (xs @ ys) = join sep xs @ sep @ join sep ys"
  by (induction xs) (auto simp: join_Cons)

lemma join_flatten_head:
  "xs \<noteq> [] \<Longrightarrow> join sep (join sep xs # ys) = join sep (xs @ ys)"
  by (cases "ys = []") (simp_all add: join_Cons join_append)

lemma join_empty_iff:
  "[] \<notin> set xs \<Longrightarrow> join sep xs = [] \<longleftrightarrow> xs = []"
  by (cases xs) (auto simp: join_Cons)

lemma contentText_nonempty: "[] \<notin> set (contentText c)"
  by (cases c) (auto simp: contentText_def)

lemma content_mergeInto:
  "content (mergeInto c m) = joinOrNull (contentText (content c) @ contentText (content m))"
  by (simp add: mergeInto_def mergedContent_def joinOrNull_def contentText_def Let_def)

lemma contentText_joinOrNull:
  "[] \<notin> set cs \<Longrightarrow> contentText (joinOrNull cs) = (if cs = [] then [] else [join newline cs])"
  by (auto simp: joinOrNull_def contentText_def Let_def join_empty_iff)

lemma joinOrNull_flatten:
  "xs \<noteq> [] \<Longrightarrow> joinOrNull (join newline xs # ys) = joinOrNull (xs @ ys)"
  by (simp add: joinOrNull_def join_flatten_head)

lemma content_foldl_mergeInto:
  "run \<noteq> [] \<Longrightarrow>
   content (foldl mergeInto c run) = joinOrNull (contentText (content c) @ nonEmptyContents run)"
proof (induction run arbitrary: c)
  case Nil
  then show ?case by simp
next
  case (Cons m run)
  show ?case
  proof (cases "run = []")
    case True
    then show ?thesis by (simp add: content_mergeInto nonEmptyContents_def)
  next
    case False
    let ?cs = "contentText (content c) @ contentText (content m)"
    have ne: "[] \<notin> set ?cs" using contentText_nonempty by simp
    have "content (foldl mergeInto c (m # run)) =
            joinOrNull (contentText (joinOrNull ?cs) @ nonEmptyContents run)"
      using Cons.IH [OF False, of "mergeInto c m"] by (simp add: content_mergeInto)
    also have "\<dots> = joinOrNull (?cs @ nonEmptyContents run)"
      using ne joinOrNull_flatten [of ?cs "nonEmptyContents run"]
      by (simp add: contentText_joinOrNull del: append_assoc)
    finally show ?thesis by (simp add: nonEmptyContents_def)
  qed
qed

lemma toolCallsOrEmpty_mergeInto:
  "toolCallsOrEmpty (mergeInto c m) = toolCallsOrEmpty c @ toolCallsOrEmpty m"
  by (simp add: mergeInto_def toolCallsOrEmpty_def)

lemma toolCallsOrEmpty_foldl:
  "toolCallsOrEmpty (foldl mergeInto c run) =
     toolCallsOrEmpty c @ concat (map toolCallsOrEmpty run)"
  by (induction run arbitrary: c) (simp_all add: toolCallsOrEmpty_mergeInto)

lemma tool_calls_foldl_present:
  "run \<noteq> [] \<Longrightarrow> tool_calls (foldl mergeInto c run) = Some (toolCallsOrEmpty (foldl mergeInto c run))"
proof (induction run arbitrary: c)
  case Nil
  then show ?case by simp
next
  case (Cons m run)
  then show ?case
    by (cases "run = []") (simp_all add: mergeInto_def toolCallsOrEmpty_def)
qed

lemma role_foldl_mergeInto:
  "role c = Assistant \<Longrightarrow> role (foldl mergeInto c run) = Assistant"
  by (induction run arbitrary: c) (simp_all add: mergeInto_def)

lemma tool_call_id_foldl_mergeInto:
  "tool_call_id (foldl mergeInto c run) = tool_call_id c"
  by (induction run arbitrary: c) (simp_all add: mergeInto_def)

lemma merge_run_structure:
  assumes pre: "pre = [] \<or> role (last pre) \<noteq> Assistant"
    and run: "\<forall>m\<in>set (a # rest). role m = Assistant"
    and post: "post = [] \<or> role (hd post) \<noteq> Assistant"
  shows "mergeConsecutiveAssistantMessages (pre @ a # rest @ post) =
         mergeConsecutiveAssistantMessages pre @
           foldl mergeInto a rest # mergeConsecutiveAssistantMessages post"
proof -
  from run have a: "role a = Assistant" and rest: "\<forall>m\<in>set rest. role m = Assistant"
    by simp_all
  have tail: "mergeLoop (a # rest @ post) [] None =
                foldl mergeInto a rest # mergeLoop post [] None"
    using a mergeLoop_run [OF rest post, of a] by simp
  show ?thesis
  proof (cases "pre = []")
    case True
    then show ?thesis using tail by (simp add: mergeConsecutiveAssistantMessages_def)
  next
    case False
    with pre have "role (last pre) \<noteq> Assistant" by simp
    from mergeLoop_prefix [OF False this, of "a # rest @ post" None] tail
    show ?thesis by (simp add: mergeConsecutiveAssistantMessages_def)
  qed
qed

lemma merge_hd_not_assistant:
  "post = [] \<or> role (hd post) \<noteq> Assistant \<Longrightarrow>
   mergeConsecutiveAssistantMessages post = [] \<or>
   role (hd (mergeConsecutiveAssistantMessages post)) \<noteq> Assistant"
proof (cases post)
  case Nil
  then show ?thesis by (simp add: mergeConsecutiveAssistantMessages_def)
next
  case (Cons p ps)
  assume "post = [] \<or> role (hd post) \<noteq> Assistant"
  with Cons have "role p \<noteq> Assistant" by simp
  then show ?thesis
    using Cons mergeLoop_acc [of ps "[p]" None]
    by (simp add: mergeConsecutiveAssistantMessages_def)
qed

lemma mergeLoop_snoc_not_assistant:
  "role q \<noteq> Assistant \<Longrightarrow> \<exists>ys. mergeLoop (xs @ [q]) [] cur = ys @ [q]"
proof (induction xs arbitrary: cur)
  case Nil
  then show ?case by (cases cur) simp_all
next
  case (Cons x xs)
  show ?case
  proof (cases "role x = Assistant")
    case True
    then show ?thesis using Cons.IH [OF Cons.prems] by (cases cur) simp_all
  next
    case False
    from Cons.IH [OF Cons.prems, of None] obtain ys
      where ys: "mergeLoop (xs @ [q]) [] None = ys @ [q]" by blast
    show ?thesis
      using False ys
        mergeLoop_acc [of "xs @ [q]" "[the cur, x]" None] mergeLoop_acc [of "xs @ [q]" "[x]" None]
      by (cases cur) simp_all
  qed
qed

lemma merge_last_not_assistant:
  assumes "pre = [] \<or> role (last pre) \<noteq> Assistant"
  shows "mergeConsecutiveAssistantMessages pre = [] \<or>
         role (last (mergeConsecutiveAssistantMessages pre)) \<noteq> Assistant"
proof (cases "pre = []")
  case True
  then show ?thesis by (simp add: mergeConsecutiveAssistantMessages_def)
next
  case False
  then obtain xs q where pq: "pre = xs @ [q]" by (metis rev_exhaust)
  with assms have q: "role q \<noteq> Assistant" by simp
  from mergeLoop_snoc_not_assistant [OF q, of xs None] obtain ys
    where "mergeLoop (xs @ [q]) [] None = ys @ [q]" by blast
  with pq q show ?thesis by (simp add: mergeConsecutiveAssistantMessages_def)
qed

text \<open>
  Claim C8, as the code has it. A maximal run of two or more adjacent assistant
  messages (between a prefix that does not end and a suffix that does not start with an
  assistant message) becomes one assistant message, between the merged prefix and the
  merged suffix, neither of which puts an assistant message next to it. Its
  \<^verbatim>\<open>tool_calls\<close> is present and is the concatenation of the members' arrays (an absent
  one counting as empty), so its length is the sum of their lengths. Its content is the
  newline-join of the members' contents that are neither null nor the empty string, and
  null when there is none.
\<close>

theorem merge_run_amended:
  assumes pre: "pre = [] \<or> role (last pre) \<noteq> Assistant"
    and run: "\<forall>m\<in>set run. role m = Assistant"
    and len: "2 \<le> length run"
    and post: "post = [] \<or> role (hd post) \<noteq> Assistant"
  shows "\<exists>x tcs.
           mergeConsecutiveAssistantMessages (pre @ run @ post) =
             mergeConsecutiveAssistantMessages pre @ [x] @ mergeConsecutiveAssistantMessages post
         \<and> (mergeConsecutiveAssistantMessages pre = [] \<or>
              role (last (mergeConsecutiveAssistantMessages pre)) \<noteq> Assistant)
         \<and> (mergeConsecutiveAssistantMessages post = [] \<or>
              role (hd (mergeConsecutiveAssistantMessages post)) \<noteq> Assistant)
         \<and> role x = Assistant
         \<and> tool_calls x = Some tcs
         \<and> tcs = concat (map toolCallsOrEmpty run)
         \<and> length tcs = sum_list (map (\<lambda>m. length (toolCallsOrEmpty m)) run)
         \<and> content x = joinOrNull (nonEmptyContents run)"
proof -
  from len obtain a rest where r: "run = a # rest"
    by (cases run) auto
  with len have ne: "rest \<noteq> []" by auto
  let ?x = "foldl mergeInto a rest"
  have s: "mergeConsecutiveAssistantMessages (pre @ run @ post) =
             mergeConsecutiveAssistantMessages pre @ [?x] @ mergeConsecutiveAssistantMessages post"
    using merge_run_structure [OF pre _ post, of a rest] run r by simp
  have ro: "role ?x = Assistant" using run r by (simp add: role_foldl_mergeInto)
  have tc: "tool_calls ?x = Some (concat (map toolCallsOrEmpty run))"
    using tool_calls_foldl_present [OF ne, of a] r by (simp add: toolCallsOrEmpty_foldl)
  have ln: "length (concat (map toolCallsOrEmpty run)) =
              sum_list (map (\<lambda>m. length (toolCallsOrEmpty m)) run)"
    by (simp add: length_concat comp_def)
  have co: "content ?x = joinOrNull (nonEmptyContents run)"
    using content_foldl_mergeInto [OF ne, of a] r by (simp add: nonEmptyContents_def)
  from s ro tc ln co merge_last_not_assistant [OF pre] merge_hd_not_assistant [OF post]
  show ?thesis by blast
qed

lemma noAdjacent_Cons_other:
  "role m \<noteq> Assistant \<Longrightarrow> noAdjacentAssistants (m # xs) = noAdjacentAssistants xs"
  by (cases xs) simp_all

lemma noAdjacent_Cons_Cons_other:
  "role m \<noteq> Assistant \<Longrightarrow> noAdjacentAssistants (c # m # xs) = noAdjacentAssistants xs"
  by (simp add: noAdjacent_Cons_other)

lemma noAdjacent_mergeLoop: "noAdjacentAssistants (mergeLoop ms [] cur)"
proof (induction ms arbitrary: cur)
  case Nil
  then show ?case by (cases cur) simp_all
next
  case (Cons m ms)
  show ?case
  proof (cases "role m = Assistant")
    case True
    then show ?thesis using Cons.IH by (cases cur) simp_all
  next
    case False
    then show ?thesis
      using Cons.IH [of None] mergeLoop_acc [of ms "[the cur, m]" None]
        mergeLoop_acc [of ms "[m]" None]
      by (cases cur) (simp_all add: noAdjacent_Cons_other)
  qed
qed

lemma mergeLoop_fixpoint:
  "(noAdjacentAssistants xs \<longrightarrow> mergeLoop xs [] None = xs) \<and>
   (\<forall>c. role c = Assistant \<and> noAdjacentAssistants (c # xs) \<longrightarrow>
        mergeLoop xs [] (Some c) = c # xs)"
proof (induction xs)
  case Nil
  then show ?case by simp
next
  case (Cons x xs)
  show ?case
  proof (cases "role x = Assistant")
    case True
    then show ?thesis using Cons.IH by auto
  next
    case False
    then show ?thesis
      using Cons.IH mergeLoop_acc [of xs "[x]" None]
      by (auto simp: noAdjacent_Cons_other mergeLoop_acc [of xs "[c, x]" None for c])
  qed
qed

text \<open>
  Claim C10. \<^verbatim>\<open>mergeConsecutiveAssistantMessages\<close> is idempotent: merging the merged
  list changes nothing, and the reason is that the merged list has no two adjacent
  assistant messages.
\<close>

theorem merge_idempotent:
  "mergeConsecutiveAssistantMessages (mergeConsecutiveAssistantMessages m) =
     mergeConsecutiveAssistantMessages m
   \<and> noAdjacentAssistants (mergeConsecutiveAssistantMessages m)"
  using noAdjacent_mergeLoop [of m None] mergeLoop_fixpoint [of "mergeLoop m [] None"]
  by (simp add: mergeConsecutiveAssistantMessages_def)

section \<open>The cleaning loop\<close>

lemma cleanLoop_append_acc:
  "cleanLoop M ids xs (a @ b) = a @ cleanLoop M ids xs b"
  by (induction xs arbitrary: b) (auto split: option.splits bool.splits simp: Let_def)

lemma cleanLoop_acc: "cleanLoop M ids xs acc = acc @ cleanLoop M ids xs []"
  using cleanLoop_append_acc [of M ids xs acc "[]"] by simp

lemma cleanLoop_Cons:
  "cleanLoop M ids (m # xs) [] = cleanLoop M ids [m] [] @ cleanLoop M ids xs []"
proof -
  have "cleanLoop M ids (m # xs) [] = cleanLoop M ids xs (cleanLoop M ids [m] [])"
    by simp
  then show ?thesis using cleanLoop_acc [of M ids xs "cleanLoop M ids [m] []"] by simp
qed

lemma cleanLoop_append:
  "cleanLoop M ids (xs @ ys) [] = cleanLoop M ids xs [] @ cleanLoop M ids ys []"
proof (induction xs)
  case Nil
  then show ?case by simp
next
  case (Cons x xs)
  then show ?case
    using cleanLoop_Cons [of M ids x "xs @ ys"] cleanLoop_Cons [of M ids x xs] by simp
qed

lemma hasResponse_iff:
  "hasResponse M tc \<longleftrightarrow> (\<exists>m\<in>set M. role m = Tool \<and> tool_call_id m = Some (tc_id tc))"
  by (simp add: hasResponse_def list_ex_iff)

lemma cleanLoop_assistant:
  "role a = Assistant \<Longrightarrow> tool_calls a = Some tcs \<Longrightarrow>
   cleanLoop M ids [a] [] =
     [a\<lparr>tool_calls :=
          (if filter (hasResponse M) tcs = [] then None else Some (filter (hasResponse M) tcs))\<rparr>]"
  by (simp add: Let_def)

text \<open>
  Claim C5, as the code has it. The position of the tool message plays no part: of an
  assistant message whose \<^verbatim>\<open>tool_calls\<close> is present, the output keeps exactly the
  entries whose id is the \<^verbatim>\<open>tool_call_id\<close> of some tool message anywhere in the
  original list, before the assistant message or after it; when none is left the field
  is absent and not an empty list. The message stands in the output between what the
  second pass makes of the messages before it and of those after it.
\<close>

theorem clean_assistant_amended:
  assumes "role a = Assistant" and "tool_calls a = Some tcs" and "ms = pre @ a # post"
    and "kept = filter (\<lambda>tc. \<exists>m\<in>set ms. role m = Tool \<and> tool_call_id m = Some (tc_id tc)) tcs"
  shows "cleanOrphanedToolCalls ms =
           cleanSegment ms pre @
             [a\<lparr>tool_calls := (if kept = [] then None else Some kept)\<rparr>] @
           cleanSegment ms post"
proof -
  have k: "kept = filter (hasResponse ms) tcs"
    using assms(4) by (simp add: hasResponse_iff [abs_def])
  let ?ids = "collectToolCallIds ms {}"
  have "cleanLoop ms ?ids (pre @ a # post) [] =
          cleanLoop ms ?ids pre [] @ cleanLoop ms ?ids [a] [] @ cleanLoop ms ?ids post []"
    using cleanLoop_append [of ms ?ids pre "a # post"] cleanLoop_Cons [of ms ?ids a post]
    by simp
  then show ?thesis
    using assms(3) k cleanLoop_assistant [OF assms(1,2), of ms ?ids]
    by (simp add: cleanOrphanedToolCalls_def cleanSegment_def)
qed

lemma fold_insert_ids:
  "fold (\<lambda>toolCall ids. insert (tc_id toolCall) ids) tcs S = tc_id ` set tcs \<union> S"
  by (induction tcs arbitrary: S) auto

lemma collectToolCallIds_iff:
  "i \<in> collectToolCallIds ms S \<longleftrightarrow>
     i \<in> S \<or> (\<exists>m\<in>set ms. role m = Assistant \<and> i \<in> tc_id ` set (toolCallsOrEmpty m))"
  by (induction ms arbitrary: S)
     (auto simp: fold_insert_ids toolCallsOrEmpty_def split: option.splits)

lemma set_cleanLoop:
  "set (cleanLoop M ids xs []) = (\<Union>x\<in>set xs. set (cleanLoop M ids [x] []))"
proof (induction xs)
  case Nil
  then show ?case by simp
next
  case (Cons x xs)
  then show ?case using cleanLoop_Cons [of M ids x xs] by simp
qed

subsection \<open>What the cleaned list contains\<close>

text \<open>What one iteration pushes, by the kind of message.\<close>

lemma toolCallsOrEmpty_memD:
  "tc \<in> set (toolCallsOrEmpty a) \<Longrightarrow> \<exists>tcs. tool_calls a = Some tcs \<and> tc \<in> set tcs"
  by (cases "tool_calls a") (simp_all add: toolCallsOrEmpty_def)

lemma cleanLoop_tool:
  "role t = Tool \<Longrightarrow>
   cleanLoop M ids [t] [] =
     (if \<exists>i. tool_call_id t = Some i \<and> i \<noteq> [] \<and> i \<in> ids then [t] else [])"
  by (auto split: option.splits)

lemma cleanLoop_other:
  "role m \<noteq> Tool \<Longrightarrow> \<not> (role m = Assistant \<and> tool_calls m \<noteq> None) \<Longrightarrow>
   cleanLoop M ids [m] [] = [m]"
  by (auto split: option.splits bool.splits)

lemma tool_in_clean:
  assumes "t \<in> set (cleanLoop M ids xs [])" and "role t = Tool"
  shows "t \<in> set xs \<and> (\<exists>i. tool_call_id t = Some i \<and> i \<noteq> [] \<and> i \<in> ids)"
proof -
  from assms(1) obtain x where x: "x \<in> set xs" and tx: "t \<in> set (cleanLoop M ids [x] [])"
    using set_cleanLoop [of M ids xs] by auto
  show ?thesis
  proof (cases "role x = Tool")
    case True
    with tx x show ?thesis using cleanLoop_tool [OF True, of M ids]
      by (auto split: if_splits simp del: cleanLoop.simps)
  next
    case nt: False
    show ?thesis
    proof (cases "role x = Assistant \<and> tool_calls x \<noteq> None")
      case True
      then obtain tcs where "tool_calls x = Some tcs" by auto
      with True tx have "role t = Assistant"
        using cleanLoop_assistant [of x tcs M ids] by (auto simp del: cleanLoop.simps)
      with assms(2) show ?thesis by simp
    next
      case False
      with nt tx have "t = x" using cleanLoop_other [of x M ids]
        by (auto simp del: cleanLoop.simps)
      with nt assms(2) show ?thesis by simp
    qed
  qed
qed

lemma assistant_in_clean:
  assumes "a' \<in> set (cleanLoop M ids xs [])" and "role a' = Assistant"
    and "tool_calls a' = Some kept"
  shows "\<exists>a\<in>set xs. \<exists>tcs. role a = Assistant \<and> tool_calls a = Some tcs \<and>
           kept = filter (hasResponse M) tcs \<and> kept \<noteq> [] \<and> a' = a\<lparr>tool_calls := Some kept\<rparr>"
proof -
  from assms(1) obtain x where x: "x \<in> set xs" and ax: "a' \<in> set (cleanLoop M ids [x] [])"
    using set_cleanLoop [of M ids xs] by auto
  show ?thesis
  proof (cases "role x = Tool")
    case True
    with ax have "a' = x" using cleanLoop_tool [OF True, of M ids]
      by (auto split: if_splits simp del: cleanLoop.simps)
    with True assms(2) show ?thesis by simp
  next
    case nt: False
    show ?thesis
    proof (cases "role x = Assistant \<and> tool_calls x \<noteq> None")
      case True
      then obtain tcs where tcs: "tool_calls x = Some tcs" by auto
      with True ax assms(3) x show ?thesis
        using cleanLoop_assistant [of x tcs M ids]
        by (auto split: if_splits intro!: bexI [of _ x] simp del: cleanLoop.simps)
    next
      case False
      with nt ax have "a' = x" using cleanLoop_other [of x M ids]
        by (auto simp del: cleanLoop.simps)
      with False assms(2,3) show ?thesis by simp
    qed
  qed
qed

lemma tool_kept:
  assumes "t \<in> set ms" and "role t = Tool" and "tool_call_id t = Some i" and "i \<noteq> []"
    and "i \<in> collectToolCallIds ms {}"
  shows "t \<in> set (cleanOrphanedToolCalls ms)"
  using assms set_cleanLoop [of ms "collectToolCallIds ms {}" ms]
    cleanLoop_tool [of t ms "collectToolCallIds ms {}"]
  by (auto simp: cleanOrphanedToolCalls_def intro!: bexI [of _ t] simp del: cleanLoop.simps)

lemma assistant_rewritten:
  assumes "a \<in> set ms" and "role a = Assistant" and "tool_calls a = Some tcs"
    and "filter (hasResponse ms) tcs \<noteq> []"
  shows "a\<lparr>tool_calls := Some (filter (hasResponse ms) tcs)\<rparr> \<in> set (cleanOrphanedToolCalls ms)"
  using assms set_cleanLoop [of ms "collectToolCallIds ms {}" ms]
    cleanLoop_assistant [of a tcs ms "collectToolCallIds ms {}"]
  by (auto simp: cleanOrphanedToolCalls_def intro!: bexI [of _ a] simp del: cleanLoop.simps)

text \<open>
  Every tool message of the output answers a tool call that is left on an assistant
  message of the output; this half of the pairing holds for every list.
\<close>

lemma clean_tool_has_call:
  assumes "t \<in> set (cleanOrphanedToolCalls ms)" and "role t = Tool"
  shows "\<exists>a\<in>set (cleanOrphanedToolCalls ms). role a = Assistant \<and>
           (\<exists>tc\<in>set (toolCallsOrEmpty a). tool_call_id t = Some (tc_id tc))"
proof -
  from tool_in_clean [OF assms(1) [unfolded cleanOrphanedToolCalls_def] assms(2)]
  obtain i where t: "t \<in> set ms" and i: "tool_call_id t = Some i" "i \<noteq> []"
    and ids: "i \<in> collectToolCallIds ms {}" by blast
  from ids obtain a tc where a: "a \<in> set ms" "role a = Assistant"
    and tc: "tc \<in> set (toolCallsOrEmpty a)" "tc_id tc = i"
    by (auto simp: collectToolCallIds_iff)
  from toolCallsOrEmpty_memD [OF tc(1)]
  obtain tcs where tcs: "tool_calls a = Some tcs" "tc \<in> set tcs" by blast
  have resp: "hasResponse ms tc" using t assms(2) i tc(2) by (auto simp: hasResponse_iff)
  with tcs have kept: "tc \<in> set (filter (hasResponse ms) tcs)" by simp
  then have ne: "filter (hasResponse ms) tcs \<noteq> []"
    by (metis empty_iff empty_set)
  let ?a = "a\<lparr>tool_calls := Some (filter (hasResponse ms) tcs)\<rparr>"
  have "?a \<in> set (cleanOrphanedToolCalls ms)"
    using assistant_rewritten [OF a tcs(1) ne] .
  moreover have "role ?a = Assistant" using a(2) by simp
  moreover have "tc \<in> set (toolCallsOrEmpty ?a)" using kept by (simp add: toolCallsOrEmpty_def)
  ultimately show ?thesis using i(1) tc(2) by blast
qed

text \<open>No assistant message of the output has an empty array.\<close>

lemma clean_no_empty_tool_calls:
  "a \<in> set (cleanOrphanedToolCalls ms) \<Longrightarrow> role a = Assistant \<Longrightarrow> tool_calls a \<noteq> Some []"
  using assistant_in_clean [of a ms "collectToolCallIds ms {}" ms "[]"]
  by (auto simp: cleanOrphanedToolCalls_def)

text \<open>
  The other half, and with it idempotence, hold for the lists in which no tool message
  has the empty string as its \<^verbatim>\<open>tool_call_id\<close>.
\<close>

lemma clean_call_has_tool:
  assumes H: "\<forall>m\<in>set ms. role m = Tool \<longrightarrow> tool_call_id m \<noteq> Some []"
    and "a' \<in> set (cleanOrphanedToolCalls ms)" and "role a' = Assistant"
    and "tc \<in> set (toolCallsOrEmpty a')"
  shows "\<exists>t\<in>set (cleanOrphanedToolCalls ms). role t = Tool \<and> tool_call_id t = Some (tc_id tc)"
proof -
  from toolCallsOrEmpty_memD [OF assms(4)]
  obtain kept where kept: "tool_calls a' = Some kept" "tc \<in> set kept" by blast
  from assistant_in_clean [OF assms(2) [unfolded cleanOrphanedToolCalls_def] assms(3) kept(1)]
  obtain a tcs where a: "a \<in> set ms" "role a = Assistant" "tool_calls a = Some tcs"
    and k: "kept = filter (hasResponse ms) tcs" by blast
  from kept(2) k have tc: "tc \<in> set tcs" "hasResponse ms tc" by auto
  from tc(2) obtain t where t: "t \<in> set ms" "role t = Tool" "tool_call_id t = Some (tc_id tc)"
    by (auto simp: hasResponse_iff)
  with H have ne: "tc_id tc \<noteq> []" by auto
  have "tc_id tc \<in> collectToolCallIds ms {}"
    using a tc(1) by (auto simp: collectToolCallIds_iff toolCallsOrEmpty_def intro!: bexI [of _ a])
  from tool_kept [OF t ne this] t show ?thesis by blast
qed

lemma cleanLoop_fixpoint:
  "\<forall>x\<in>set xs. cleanLoop M ids [x] [] = [x] \<Longrightarrow> cleanLoop M ids xs [] = xs"
proof (induction xs)
  case Nil
  then show ?case by simp
next
  case (Cons x xs)
  then show ?case using cleanLoop_Cons [of M ids x xs] by simp
qed

lemma clean_idempotent_if:
  assumes H: "\<forall>m\<in>set ms. role m = Tool \<longrightarrow> tool_call_id m \<noteq> Some []"
  shows "cleanOrphanedToolCalls (cleanOrphanedToolCalls ms) = cleanOrphanedToolCalls ms"
proof -
  let ?out = "cleanOrphanedToolCalls ms"
  let ?ids = "collectToolCallIds ?out {}"
  have "cleanLoop ?out ?ids [x] [] = [x]" if x: "x \<in> set ?out" for x
  proof (cases "role x = Tool")
    case True
    from tool_in_clean [OF x [unfolded cleanOrphanedToolCalls_def] True]
    obtain i where i: "tool_call_id x = Some i" "i \<noteq> []" by blast
    from clean_tool_has_call [OF x True] i(1) have "i \<in> ?ids"
      by (auto simp: collectToolCallIds_iff)
    with i show ?thesis using cleanLoop_tool [OF True, of ?out ?ids] by (simp del: cleanLoop.simps)
  next
    case nt: False
    show ?thesis
    proof (cases "role x = Assistant \<and> tool_calls x \<noteq> None")
      case True
      then obtain l where l: "tool_calls x = Some l" by auto
      have "hasResponse ?out tc" if "tc \<in> set l" for tc
        using clean_call_has_tool [OF H x, of tc] True l that
        by (auto simp: hasResponse_iff toolCallsOrEmpty_def)
      then have f: "filter (hasResponse ?out) l = l" by (simp add: filter_id_conv)
      have "l \<noteq> []" using clean_no_empty_tool_calls [OF x] True l by auto
      with f l True show ?thesis
        using cleanLoop_assistant [of x l ?out ?ids] by (simp del: cleanLoop.simps)
    next
      case False
      with nt show ?thesis using cleanLoop_other [of x ?out ?ids] by (simp del: cleanLoop.simps)
    qed
  qed
  then show ?thesis
    using cleanLoop_fixpoint [of ?out ?out ?ids]
    by (simp add: cleanOrphanedToolCalls_def)
qed

subsection \<open>The functions at concrete lists\<close>

lemmas example_defs =
  exampleCall_def assistantMsg_def toolMsg_def userMsg_def cleanOrphanedToolCalls_def
  hasResponse_def mergeConsecutiveAssistantMessages_def mergeInto_def mergedContent_def
  toolCallsOrEmpty_def newline_def cleanSegment_def

text \<open>
  Claim C1: after \<^verbatim>\<open>cleanOrphanedToolCalls\<close> every tool message left answers a tool
  call that is left, and every tool call left has a tool message left that answers it.
  The code at an assistant message whose one tool call has the empty string as id,
  followed by the tool message that answers it: the test
  \<^verbatim>\<open>message.tool_call_id && ...\<close> takes the empty id for a missing one and drops the
  tool message, while \<^verbatim>\<open>m.tool_call_id === toolCall.id\<close> finds that same message and
  keeps the call, so the output is the call without its answer.
\<close>

theorem clean_empty_id_leaves_orphan:
  "cleanOrphanedToolCalls [assistantMsg None (Some [exampleCall '''']), toolMsg ''''] =
     [assistantMsg None (Some [exampleCall ''''])]"
  by (simp add: example_defs)

text \<open>
  Claim C6: \<^verbatim>\<open>cleanOrphanedToolCalls\<close> is idempotent. The code at the same list: the
  first application keeps the call and drops its answer, so the second application
  finds no answer and removes the call.
\<close>

theorem clean_empty_id_not_idempotent:
  "cleanOrphanedToolCalls
     (cleanOrphanedToolCalls [assistantMsg None (Some [exampleCall '''']), toolMsg '''']) =
     [assistantMsg None None]
   \<and> cleanOrphanedToolCalls [assistantMsg None (Some [exampleCall '''']), toolMsg ''''] \<noteq>
     [assistantMsg None None]"
  by (simp add: example_defs)

text \<open>
  Claim C5 as it is stated fails where the only answer stands before the assistant
  message: no tool message comes later, and the entry is kept.
\<close>

theorem clean_earlier_response_counterexample:
  "cleanOrphanedToolCalls [toolMsg ''a'', assistantMsg None (Some [exampleCall ''a''])] =
     [toolMsg ''a'', assistantMsg None (Some [exampleCall ''a''])]
   \<and> filter (hasLaterResponse []) [exampleCall ''a''] = []"
  by (simp add: example_defs hasLaterResponse_def)

theorem clean_assistant_amended_witness:
  "cleanOrphanedToolCalls
     ([toolMsg ''a''] @ assistantMsg None (Some [exampleCall ''a'', exampleCall ''b'']) # [userMsg ''hi'']) =
     [toolMsg ''a'', assistantMsg None (Some [exampleCall ''a'']), userMsg ''hi'']"
  using clean_assistant_amended
    [of "assistantMsg None (Some [exampleCall ''a'', exampleCall ''b''])"
        "[exampleCall ''a'', exampleCall ''b'']"
        "[toolMsg ''a''] @ assistantMsg None (Some [exampleCall ''a'', exampleCall ''b'']) # [userMsg ''hi'']"
        "[toolMsg ''a'']" "[userMsg ''hi'']" "[exampleCall ''a'']"]
  by (simp add: example_defs)

text \<open>
  Claim C8 as it is stated fails at a member whose content is the empty string:
  \<^verbatim>\<open>filter(Boolean)\<close> drops it, while the join of the contents that are not null would
  end with a newline.
\<close>

theorem merge_empty_content_counterexample:
  "mergeConsecutiveAssistantMessages [assistantMsg (Some ''a'') None, assistantMsg (Some '''') None] =
     [assistantMsg (Some ''a'') (Some [])]
   \<and> joinOrNull (nonNullContents [assistantMsg (Some ''a'') None, assistantMsg (Some '''') None]) =
     Some (''a'' @ newline)"
  by (simp add: example_defs joinOrNull_def nonNullContents_def)

theorem merge_run_amended_witness:
  "mergeConsecutiveAssistantMessages
     ([userMsg ''q''] @
      [assistantMsg (Some ''a'') None, assistantMsg None (Some [exampleCall ''x'']),
       assistantMsg (Some '''') (Some [exampleCall ''y'']), assistantMsg (Some ''b'') None] @
      [userMsg ''r'']) =
   [userMsg ''q'',
    assistantMsg (Some (''a'' @ newline @ ''b'')) (Some [exampleCall ''x'', exampleCall ''y'']),
    userMsg ''r'']"
  using merge_run_amended
    [of "[userMsg ''q'']"
        "[assistantMsg (Some ''a'') None, assistantMsg None (Some [exampleCall ''x'']),
          assistantMsg (Some '''') (Some [exampleCall ''y'']), assistantMsg (Some ''b'') None]"
        "[userMsg ''r'']"]
  by (simp add: example_defs)

text \<open>
  Claim C9. The message that replaces a maximal run of two or more adjacent assistant
  messages always has a present \<^verbatim>\<open>tool_calls\<close> array, the empty one when no member
  of the run had the field; \<^verbatim>\<open>cleanOrphanedToolCalls\<close>, in contrast, never leaves an
  assistant message with an empty array.
\<close>

theorem merged_tool_calls_present:
  assumes pre: "pre = [] \<or> role (last pre) \<noteq> Assistant"
    and run: "\<forall>m\<in>set run. role m = Assistant"
    and len: "2 \<le> length run"
    and post: "post = [] \<or> role (hd post) \<noteq> Assistant"
  shows "(\<exists>x tcs.
            mergeConsecutiveAssistantMessages (pre @ run @ post) =
              mergeConsecutiveAssistantMessages pre @ [x] @ mergeConsecutiveAssistantMessages post
          \<and> tool_calls x = Some tcs
          \<and> ((\<forall>m\<in>set run. tool_calls m = None) \<longrightarrow> tcs = []))
       \<and> (\<forall>a\<in>set (cleanOrphanedToolCalls ms). role a = Assistant \<longrightarrow> tool_calls a \<noteq> Some [])"
proof -
  from len obtain a rest where r: "run = a # rest"
    by (cases run) auto
  with len have ne: "rest \<noteq> []" by auto
  let ?x = "foldl mergeInto a rest"
  have s: "mergeConsecutiveAssistantMessages (pre @ run @ post) =
             mergeConsecutiveAssistantMessages pre @ [?x] @ mergeConsecutiveAssistantMessages post"
    using merge_run_structure [OF pre _ post, of a rest] run r by simp
  have tc: "tool_calls ?x = Some (concat (map toolCallsOrEmpty run))"
    using tool_calls_foldl_present [OF ne, of a] r by (simp add: toolCallsOrEmpty_foldl)
  have "concat (map toolCallsOrEmpty run) = []" if "\<forall>m\<in>set run. tool_calls m = None"
    using that by (simp add: toolCallsOrEmpty_def)
  with s tc have "\<exists>x tcs.
            mergeConsecutiveAssistantMessages (pre @ run @ post) =
              mergeConsecutiveAssistantMessages pre @ [x] @ mergeConsecutiveAssistantMessages post
          \<and> tool_calls x = Some tcs
          \<and> ((\<forall>m\<in>set run. tool_calls m = None) \<longrightarrow> tcs = [])"
    by blast
  then show ?thesis using clean_no_empty_tool_calls [of _ ms] by blast
qed

theorem merged_tool_calls_present_witness:
  "mergeConsecutiveAssistantMessages
     ([] @ [assistantMsg (Some ''a'') None, assistantMsg (Some ''b'') None] @ [userMsg ''r'']) =
     [assistantMsg (Some (''a'' @ newline @ ''b'')) (Some []), userMsg ''r'']
   \<and> cleanOrphanedToolCalls [assistantMsg (Some ''a'') (Some [exampleCall ''x''])] =
     [assistantMsg (Some ''a'') None]"
proof -
  let ?run = "[assistantMsg (Some ''a'') None, assistantMsg (Some ''b'') None]"
  let ?ms = "[assistantMsg (Some ''a'') (Some [exampleCall ''x''])]"
  have h: "\<forall>m\<in>set ?run. role m = Assistant" "2 \<le> length ?run"
    "[userMsg ''r''] = [] \<or> role (hd [userMsg ''r'']) \<noteq> Assistant"
    by (simp_all add: assistantMsg_def userMsg_def)
  have n: "\<forall>m\<in>set ?run. tool_calls m = None" by (simp add: assistantMsg_def)
  from merged_tool_calls_present [OF _ h, of "[]" ?ms] n
  obtain x where x: "mergeConsecutiveAssistantMessages ([] @ ?run @ [userMsg ''r'']) =
      mergeConsecutiveAssistantMessages [] @ [x] @ mergeConsecutiveAssistantMessages [userMsg ''r'']"
    and t: "tool_calls x = Some []"
    and c: "\<forall>a\<in>set (cleanOrphanedToolCalls ?ms). role a = Assistant \<longrightarrow> tool_calls a \<noteq> Some []"
    by blast
  have e: "mergeConsecutiveAssistantMessages ([] @ ?run @ [userMsg ''r'']) =
     [assistantMsg (Some (''a'' @ newline @ ''b'')) (Some []), userMsg ''r'']"
    by (simp add: example_defs)
  have "cleanOrphanedToolCalls ?ms = [assistantMsg (Some ''a'') None]"
    by (simp add: example_defs)
  with e t c show ?thesis by simp
qed

section \<open>Inbound translation: the results\<close>

lemma toolCallParts_result:
  "toolCallParts P tcs acc =
     (if parsesAll P tcs
      then Inr (acc @ map (\<lambda>tc. functionCallPart (name (tc_function tc))
                                   (the (P (argumentsOrEmptyObject tc))))
                        (filter (\<lambda>tc. tc_type tc = ''function'') tcs))
      else Inl SyntaxError)"
  by (induction tcs arbitrary: acc) (auto simp: parsesAll_def split: option.splits)

lemma convert_empty: "choices c = [] \<Longrightarrow>
   convertToGeminiFormat P c = Inl (Error ''No choices in OpenAI response'')"
  by (simp add: convertToGeminiFormat_def)

lemma convert_Cons:
  "choices c = ch # others \<Longrightarrow>
   convertToGeminiFormat P c =
     (if parsesAll P (toolCallsOrEmpty (message ch))
      then Inr \<lparr>candidates =
                 [\<lparr>candidateContent =
                     \<lparr>turnRole = ''model'',
                      parts = Some
                        ((if truthy (content (message ch)) then [textPart (the (content (message ch)))] else []) @
                         map (\<lambda>tc. functionCallPart (name (tc_function tc))
                                    (the (P (argumentsOrEmptyObject tc))))
                           (filter (\<lambda>tc. tc_type tc = ''function'') (toolCallsOrEmpty (message ch))))\<rparr>,
                   finishReason = Some (mapFinishReason (finish_reason ch))\<rparr>],
               usageMetadata =
                 (case usage c of
                    Some u \<Rightarrow>
                      Some \<lparr>promptTokenCount = prompt_tokens u,
                            candidatesTokenCount = completion_tokens u,
                            totalTokenCount = total_tokens u\<rparr>
                  | None \<Rightarrow> None)\<rparr>
      else Inl SyntaxError)"
  by (cases "tool_calls (message ch)"; cases "content (message ch)")
     (simp_all add: convertToGeminiFormat_def toolCallParts_result toolCallsOrEmpty_def
        parsesAll_def Let_def)

text \<open>
  Claim C3, as the code has it. \<^verbatim>\<open>convertToGeminiFormat\<close> throws the error
  \<^verbatim>\<open>No choices in OpenAI response\<close> exactly when the list of choices is empty. With at
  least one choice the result, value or error, is that of the response cut down to its
  first choice; it is a response with one candidate exactly when \<^verbatim>\<open>JSON.parse\<close>
  accepts the arguments of every tool call of type \<^verbatim>\<open>function\<close> of that choice, and
  the \<^verbatim>\<open>SyntaxError\<close> of \<^verbatim>\<open>JSON.parse\<close> otherwise.
\<close>

theorem convertToGeminiFormat_amended:
  "(convertToGeminiFormat P c = Inl (Error ''No choices in OpenAI response'') \<longleftrightarrow> choices c = [])
   \<and> (choices c = ch # others \<longrightarrow>
        convertToGeminiFormat P c = convertToGeminiFormat P (c\<lparr>choices := [ch]\<rparr>)
        \<and> ((\<exists>response. convertToGeminiFormat P c = Inr response \<and> length (candidates response) = 1)
             \<longleftrightarrow> parsesAll P (toolCallsOrEmpty (message ch)))
        \<and> (convertToGeminiFormat P c = Inl SyntaxError
             \<longleftrightarrow> \<not> parsesAll P (toolCallsOrEmpty (message ch))))"
proof -
  have a: "convertToGeminiFormat P c = Inl (Error ''No choices in OpenAI response'') \<longleftrightarrow> choices c = []"
  proof (cases "choices c")
    case Nil
    then show ?thesis by (simp add: convert_empty)
  next
    case (Cons ch' others')
    then show ?thesis by (simp add: convert_Cons)
  qed
  have b: "convertToGeminiFormat P c = convertToGeminiFormat P (c\<lparr>choices := [ch]\<rparr>)"
    if "choices c = ch # others"
    using that convert_Cons [of c ch others P] convert_Cons [of "c\<lparr>choices := [ch]\<rparr>" ch "[]" P]
    by simp
  have d: "(\<exists>response. convertToGeminiFormat P c = Inr response \<and> length (candidates response) = 1)
             \<longleftrightarrow> parsesAll P (toolCallsOrEmpty (message ch))"
    if "choices c = ch # others"
    using that convert_Cons [of c ch others P] by simp
  have e: "convertToGeminiFormat P c = Inl SyntaxError
             \<longleftrightarrow> \<not> parsesAll P (toolCallsOrEmpty (message ch))"
    if "choices c = ch # others"
    using that convert_Cons [of c ch others P] by simp
  from a b d e show ?thesis by blast
qed

lemmas inbound_example_defs =
  exampleChoice_def exampleChunkChoice_def parseRejectingOpenBrace_def convertToGeminiFormat_def
  convertStreamChunkToGeminiFormat_def argumentsOrEmptyObject_def parsesAll_def
  toolCallsOrEmpty_def textPart_def functionCallPart_def mapFinishReason_def

text \<open>
  Claim C3 as it is stated fails at a response with one choice whose tool call has
  malformed arguments: the translation does not return, \<^verbatim>\<open>JSON.parse\<close> throws.
\<close>

theorem convertToGeminiFormat_malformed_counterexample:
  "convertToGeminiFormat parseRejectingOpenBrace
     \<lparr>choices = [exampleChoice None ''{'' ''tool_calls''], usage = None\<rparr> = Inl SyntaxError"
  by (simp add: inbound_example_defs)

theorem convertToGeminiFormat_amended_witness:
  "convertToGeminiFormat parseRejectingOpenBrace
     \<lparr>choices = [exampleChoice (Some ''hi'') '''' ''stop'', exampleChoice None ''{'' ''length''],
      usage = None\<rparr> =
   Inr \<lparr>candidates =
         [\<lparr>candidateContent =
             \<lparr>turnRole = ''model'', parts = Some [textPart ''hi'', functionCallPart ''f'' ()]\<rparr>,
           finishReason = Some STOP\<rparr>],
        usageMetadata = None\<rparr>
   \<and> convertToGeminiFormat parseRejectingOpenBrace
     \<lparr>choices = [exampleChoice None ''{'' ''length'', exampleChoice (Some ''hi'') '''' ''stop''],
      usage = None\<rparr> = Inl SyntaxError"
  using convertToGeminiFormat_amended
    [of parseRejectingOpenBrace
        "\<lparr>choices = [exampleChoice (Some ''hi'') '''' ''stop'', exampleChoice None ''{'' ''length''],
          usage = None\<rparr>"
        "exampleChoice (Some ''hi'') '''' ''stop''" "[exampleChoice None ''{'' ''length'']"]
    convertToGeminiFormat_amended
    [of parseRejectingOpenBrace
        "\<lparr>choices = [exampleChoice None ''{'' ''length'', exampleChoice (Some ''hi'') '''' ''stop''],
          usage = None\<rparr>"
        "exampleChoice None ''{'' ''length''" "[exampleChoice (Some ''hi'') '''' ''stop'']"]
  by (simp add: inbound_example_defs)

lemma chunk_empty:
  "chunk_choices chunk = [] \<Longrightarrow>
   convertStreamChunkToGeminiFormat P e chunk = Inr \<lparr>candidates = [], usageMetadata = None\<rparr>"
  by (simp add: convertStreamChunkToGeminiFormat_def)

text \<open>
  Claim C7. \<^verbatim>\<open>convertStreamChunkToGeminiFormat\<close> on a chunk with no choice returns the
  response with the empty candidate list and raises nothing, whatever \<^verbatim>\<open>JSON.parse\<close>
  does; \<^verbatim>\<open>convertToGeminiFormat\<close> on a response with no choice throws.
\<close>

theorem chunk_zero_choices:
  "(chunk_choices chunk = [] \<longrightarrow>
      convertStreamChunkToGeminiFormat P e chunk = Inr \<lparr>candidates = [], usageMetadata = None\<rparr>)
   \<and> (choices completion = [] \<longrightarrow>
      convertToGeminiFormat P completion = Inl (Error ''No choices in OpenAI response''))"
  by (simp add: chunk_empty convert_empty)

theorem chunk_zero_choices_witness:
  "convertStreamChunkToGeminiFormat parseRejectingOpenBrace () \<lparr>chunk_choices = []\<rparr> =
     Inr \<lparr>candidates = [], usageMetadata = None\<rparr>
   \<and> convertToGeminiFormat parseRejectingOpenBrace \<lparr>choices = [], usage = None\<rparr> =
     Inl (Error ''No choices in OpenAI response'')"
  using chunk_zero_choices
    [of "\<lparr>chunk_choices = []\<rparr>" parseRejectingOpenBrace "()" "\<lparr>choices = [], usage = None\<rparr>"]
  by simp

lemma chunk_Cons_finishReason:
  "chunk_choices chunk = dch # dothers \<Longrightarrow>
   convertStreamChunkToGeminiFormat P e chunk = Inr response \<Longrightarrow>
   map finishReason (candidates response) =
     [if truthy (chunk_finish_reason dch)
      then Some (mapFinishReason (the (chunk_finish_reason dch))) else None]"
  by (auto simp: convertStreamChunkToGeminiFormat_def Let_def split: option.splits sum.splits)

text \<open>
  Claim C2, as the code has it. \<^verbatim>\<open>mapFinishReason\<close>
  sends \<^verbatim>\<open>stop\<close> to STOP, \<^verbatim>\<open>length\<close> to MAX_TOKENS,
  \<^verbatim>\<open>tool_calls\<close> to STOP, \<^verbatim>\<open>content_filter\<close> to SAFETY and every other string, the
  empty one included, to OTHER. Both translators take the finish reason of their
  candidate from it: the full-response translator always, the chunk translator when the
  chunk's \<^verbatim>\<open>finish_reason\<close> is truthy (the candidate has none otherwise).
\<close>

theorem finish_reason_mapping:
  "mapFinishReason ''stop'' = STOP
   \<and> mapFinishReason ''length'' = MAX_TOKENS
   \<and> mapFinishReason ''tool_calls'' = STOP
   \<and> mapFinishReason ''content_filter'' = SAFETY
   \<and> mapFinishReason '''' = OTHER
   \<and> (r \<notin> {''stop'', ''length'', ''tool_calls'', ''content_filter''} \<longrightarrow> mapFinishReason r = OTHER)
   \<and> (choices completion = ch # others \<longrightarrow>
        convertToGeminiFormat P completion = Inr response \<longrightarrow>
        map finishReason (candidates response) = [Some (mapFinishReason (finish_reason ch))])
   \<and> (chunk_choices chunk = dch # dothers \<longrightarrow>
        convertStreamChunkToGeminiFormat P e chunk = Inr response' \<longrightarrow>
        map finishReason (candidates response') =
          [if truthy (chunk_finish_reason dch)
           then Some (mapFinishReason (the (chunk_finish_reason dch))) else None])"
proof -
  have full: "map finishReason (candidates response) = [Some (mapFinishReason (finish_reason ch))]"
    if "choices completion = ch # others" "convertToGeminiFormat P completion = Inr response"
    using that convert_Cons [of completion ch others P] by (auto split: if_splits)
  have m: "mapFinishReason r = OTHER"
    if "r \<notin> {''stop'', ''length'', ''tool_calls'', ''content_filter''}"
    using that by (simp add: mapFinishReason_def)
  show ?thesis
    using full m chunk_Cons_finishReason [of chunk dch dothers P e response']
    by (simp add: mapFinishReason_def)
qed

theorem finish_reason_mapping_witness:
  "mapFinishReason ''function_call'' = OTHER
   \<and> convertToGeminiFormat parseRejectingOpenBrace
       \<lparr>choices = [exampleChoice (Some ''hi'') '''' ''content_filter''], usage = None\<rparr> =
     Inr \<lparr>candidates =
           [\<lparr>candidateContent =
               \<lparr>turnRole = ''model'', parts = Some [textPart ''hi'', functionCallPart ''f'' ()]\<rparr>,
             finishReason = Some SAFETY\<rparr>],
          usageMetadata = None\<rparr>
   \<and> convertStreamChunkToGeminiFormat parseRejectingOpenBrace ()
       \<lparr>chunk_choices = [exampleChunkChoice (Some ''wor'') (Some ''length'')]\<rparr> =
     Inr \<lparr>candidates =
           [\<lparr>candidateContent = \<lparr>turnRole = ''model'', parts = Some [textPart ''wor'']\<rparr>,
             finishReason = Some MAX_TOKENS\<rparr>],
          usageMetadata = None\<rparr>"
proof -
  let ?c = "\<lparr>choices = [exampleChoice (Some ''hi'') '''' ''content_filter''], usage = None\<rparr>"
  let ?k = "\<lparr>chunk_choices = [exampleChunkChoice (Some ''wor'') (Some ''length'')]\<rparr>"
  let ?r = "\<lparr>candidates =
           [\<lparr>candidateContent =
               \<lparr>turnRole = ''model'', parts = Some [textPart ''hi'', functionCallPart ''f'' ()]\<rparr>,
             finishReason = Some SAFETY\<rparr>],
          usageMetadata = None\<rparr>"
  let ?r' = "\<lparr>candidates =
           [\<lparr>candidateContent = \<lparr>turnRole = ''model'', parts = Some [textPart ''wor'']\<rparr>,
             finishReason = Some MAX_TOKENS\<rparr>],
          usageMetadata = None\<rparr>"
  have c: "convertToGeminiFormat parseRejectingOpenBrace ?c = Inr ?r"
    by (simp add: inbound_example_defs)
  have k: "convertStreamChunkToGeminiFormat parseRejectingOpenBrace () ?k = Inr ?r'"
    by (simp add: inbound_example_defs)
  from finish_reason_mapping
    [of "''function_call''" ?c "exampleChoice (Some ''hi'') '''' ''content_filter''" "[]"
        parseRejectingOpenBrace ?r ?k "exampleChunkChoice (Some ''wor'') (Some ''length'')" "[]"
        "()" ?r']
  have "mapFinishReason ''function_call'' = OTHER" by simp
  with c k show ?thesis by simp
qed

text \<open>
  Claim C2 as it is stated fails at a chunk whose \<^verbatim>\<open>finish_reason\<close> is the empty
  string: the mapping sends the empty string to OTHER and the full-response translator
  reports OTHER, but \<^verbatim>\<open>choice.finish_reason ? ... : undefined\<close> takes the empty string
  for a missing one, so the chunk translator reports no finish reason.
\<close>

theorem chunk_empty_finish_reason_counterexample:
  "mapFinishReason '''' = OTHER
   \<and> convertToGeminiFormat parseRejectingOpenBrace
       \<lparr>choices = [exampleChoice (Some ''hi'') '''' ''''], usage = None\<rparr> =
     Inr \<lparr>candidates =
           [\<lparr>candidateContent =
               \<lparr>turnRole = ''model'', parts = Some [textPart ''hi'', functionCallPart ''f'' ()]\<rparr>,
             finishReason = Some OTHER\<rparr>],
          usageMetadata = None\<rparr>
   \<and> convertStreamChunkToGeminiFormat parseRejectingOpenBrace ()
       \<lparr>chunk_choices = [exampleChunkChoice (Some ''wor'') (Some '''')]\<rparr> =
     Inr \<lparr>candidates =
           [\<lparr>candidateContent = \<lparr>turnRole = ''model'', parts = Some [textPart ''wor'']\<rparr>,
             finishReason = None\<rparr>],
          usageMetadata = None\<rparr>"
  by (simp add: inbound_example_defs)

section \<open>Outbound translation: the tool-call ids\<close>

text \<open>
  Within one turn the ids differ, whatever the clock returns: the index is part of the
  id, and neither number is printed with an underscore.
\<close>

lemma showNat_0: "showNat 0 = ''0''"
  by (simp add: showNat.simps digitChar_def)

lemma showNat_1: "showNat (Suc 0) = ''1''"
  by (simp add: showNat.simps digitChar_def)

lemma showNat_numeral:
  "showNat (numeral w) =
     (if numeral w < (10::nat) then [digitChar (numeral w)]
      else showNat (numeral w div 10) @ [digitChar (numeral w mod 10)])"
  by (rule showNat.simps)

lemmas showNat_eval = showNat_0 showNat_1 showNat_numeral digitChar_def

lemma below_ten: "(d::nat) < 10 \<Longrightarrow> d \<in> {0, 1, 2, 3, 4, 5, 6, 7, 8, 9}"
  by auto

lemma digitValue_digitChar: "d < 10 \<Longrightarrow> digitValue (digitChar d) = d"
  using below_ten [of d] by (auto simp: digitValue_def digitChar_def)

lemma digitChar_not_underscore: "d < 10 \<Longrightarrow> digitChar d \<noteq> CHR ''_''"
  using below_ten [of d] by (auto simp: digitChar_def)

lemma readNat_snoc: "readNat (s @ [ch]) = 10 * readNat s + digitValue ch"
  by (simp add: readNat_def)

lemma readNat_showNat: "readNat (showNat n) = n"
proof (induction n rule: showNat.induct)
  case (1 n)
  show ?case
  proof (cases "n < 10")
    case True
    then show ?thesis
      using digitValue_digitChar [of n] readNat_snoc [of "[]" "digitChar n"]
      by (simp add: showNat.simps [of n] readNat_def)
  next
    case False
    then show ?thesis
      using "1.IH" digitValue_digitChar [of "n mod 10"]
      by (simp add: showNat.simps [of n] readNat_snoc)
  qed
qed

lemma showNat_inj: "showNat i = showNat j \<Longrightarrow> i = j"
  by (metis readNat_showNat)

lemma showNat_no_underscore: "CHR ''_'' \<notin> set (showNat n)"
proof (induction n rule: showNat.induct)
  case (1 n)
  show ?case
  proof (cases "n < 10")
    case True
    then show ?thesis
      using digitChar_not_underscore [of n] by (simp add: showNat.simps [of n])
  next
    case False
    then show ?thesis
      using "1.IH" digitChar_not_underscore [of "n mod 10"]
      by (simp add: showNat.simps [of n])
  qed
qed

lemma call_id_inj:
  assumes "showNat a @ CHR ''_'' # showNat i = showNat b @ CHR ''_'' # showNat j"
  shows "i = j"
proof -
  note split =
    append_Cons_eq_iff [OF showNat_no_underscore showNat_no_underscore]
  from iffD1 [OF split assms] have "showNat i = showNat j" by (rule conjunct2)
  then show ?thesis by (rule showNat_inj)
qed

lemma tc_id_toolCallOf:
  "map tc_id (map (toolCallOf Date_now k S e) (enumerate n fcs)) =
     map (\<lambda>i. ''call_'' @ showNat (Date_now (k + i)) @ ''_'' @ showNat i) [n..<n + length fcs]"
proof (induction fcs arbitrary: n)
  case Nil
  then show ?case by simp
next
  case (Cons fc fcs)
  have "[n..<n + length (fc # fcs)] = n # [Suc n..<Suc n + length fcs]"
    using upt_conv_Cons [of n "Suc n + length fcs"] by simp
  then show ?case using Cons.IH [of "Suc n"] by (simp add: toolCallOf_def)
qed

lemma distinct_turn_ids:
  "distinct (map tc_id (map (toolCallOf Date_now k S e) (enumerate 0 fcs)))"
proof -
  have "inj_on (\<lambda>i. ''call_'' @ showNat (Date_now (k + i)) @ ''_'' @ showNat i) A" for A
    by (rule inj_onI) (simp, erule call_id_inj)
  then show ?thesis
    unfolding tc_id_toolCallOf by (simp add: distinct_map)
qed

lemma convertContent_turn:
  assumes "turnRole c = ''user'' \<or> turnRole c = ''model''"
    and "parts c = Some ps" and "List.map_filter functionCall ps = fcs" and "fcs \<noteq> []"
  shows "\<exists>textMessages toolMessages tcs.
           convertContent Date_now S e (ContentObject c) (msgs, k) =
             (msgs @ textMessages @
                [\<lparr>role = Assistant, content = None, tool_calls = Some tcs, tool_call_id = None\<rparr>] @
                toolMessages,
              k + length fcs)
         \<and> length tcs = length fcs
         \<and> distinct (map tc_id tcs)
         \<and> (\<forall>m\<in>set textMessages. tool_calls m = None)
         \<and> (\<forall>m\<in>set toolMessages. role m = Tool \<and> tool_calls m = None)"
proof -
  let ?t = "join newline (List.map_filter part_text ps)"
  let ?tm = "if ?t \<noteq> [] then
      [\<lparr>role = (if turnRole c = ''model'' then Assistant else User), content = Some ?t,
        tool_calls = None, tool_call_id = None\<rparr>] else []"
  let ?tcs = "map (toolCallOf Date_now k S e) (enumerate 0 fcs)"
  let ?rs = "map (toolMessageOf S e) (List.map_filter functionResponse ps)"
  have "convertContent Date_now S e (ContentObject c) (msgs, k) =
          (msgs @ ?tm @
             [\<lparr>role = Assistant, content = None, tool_calls = Some ?tcs, tool_call_id = None\<rparr>] @ ?rs,
           k + length fcs)"
    using assms by (simp add: convertContent_def Let_def)
  moreover have "length ?tcs = length fcs" by simp
  moreover have "distinct (map tc_id ?tcs)" by (rule distinct_turn_ids)
  moreover have "\<forall>m\<in>set ?tm. tool_calls m = None" by simp
  moreover have "\<forall>m\<in>set ?rs. role m = Tool \<and> tool_calls m = None"
    by (simp add: toolMessageOf_def)
  ultimately show ?thesis by blast
qed

subsection \<open>Two turns in the same millisecond\<close>

lemma showNat_example: "showNat 1700000000000 = ''1700000000000''"
  by (simp add: showNat_eval)

lemma convertContent_functionCallTurn:
  "convertContent Date_now JSON_stringify emptyObject (functionCallTurn [n]) (msgs, k) =
     (msgs @
        [\<lparr>role = Assistant, content = None,
          tool_calls =
            Some [\<lparr>tc_id = ''call_'' @ showNat (Date_now k) @ ''_0'',
                   tc_type = ''function'',
                   tc_function = \<lparr>name = n, arguments = JSON_stringify emptyObject\<rparr>\<rparr>],
          tool_call_id = None\<rparr>],
      Suc k)"
  by (simp add: convertContent_def functionCallTurn_def toolCallOf_def Let_def
      showNat_0)

text \<open>
  Claim C4: the function calls of a turn become one assistant message with content null
  and one \<^verbatim>\<open>tool_calls\<close> entry for each call, and every id is unique in the whole
  translated list. The first part holds, and the ids of one turn differ from each other.
  The code at a request of two model turns with one function call each, translated
  within one millisecond (\<^verbatim>\<open>Date.now()\<close> returns 1700000000000 at each call): the index
  starts from 0 in every turn, so both messages carry the id
  \<^verbatim>\<open>call_1700000000000_0\<close>.
\<close>

theorem tool_call_ids_repeat_across_turns:
  "map (\<lambda>m. (role m, content m, map tc_id (toolCallsOrEmpty m)))
     (messages
        (convertGeminiParametersToOpenAI (\<lambda>_. 1700000000000) JSON_stringify emptyObject
           \<lparr>contents = ContentArray [functionCallTurn [''f''], functionCallTurn [''g'']],
            config = None\<rparr>
           ''llama3'')) =
   [(Assistant, None, [''call_1700000000000_0'']), (Assistant, None, [''call_1700000000000_0''])]"
  by (simp add: convertGeminiParametersToOpenAI_def convertContent_functionCallTurn
      toolCallsOrEmpty_def showNat_example)

end
